theory Spec2Isabelle
  imports Complex_Main
begin

section \<open>Python values and the built-ins the detector relies on\<close>

text \<open>
  A Python \<open>str\<close> is a sequence of Unicode code points, so a text is a list of natural
  numbers and \<open>ord\<close> is the identity. The caller may hand \<open>detect\<close> any Python object;
  the values that matter for the module (and for its test-suite) are \<open>None\<close>, an
  integer, a string, and a list as an example of a sliceable non-string.

  A Python \<open>float\<close> is an IEEE binary64 number; a finite one is modelled by the rational
  it denotes, and every arithmetic operation rounds its exact result (next section).
\<close>

type_synonym pystr = "nat list"

datatype pyval = PyNone | PyInt int | PyStr pystr | PyList "pyval list"

datatype py_exception = TypeError | ZeroDivisionError

text \<open>\<open>str.isspace\<close> on one character: the whitespace table of CPython 3
  (general category Zs or bidirectional class WS, B, S).\<close>

definition isspace :: "nat \<Rightarrow> bool" where
  "isspace c =
     ((9 \<le> c \<and> c \<le> 13) \<or> (28 \<le> c \<and> c \<le> 32) \<or> c = 133 \<or> c = 160 \<or> c = 5760 \<or>
      (8192 \<le> c \<and> c \<le> 8202) \<or> c = 8232 \<or> c = 8233 \<or> c = 8239 \<or> c = 8287 \<or>
      c = 12288)"

text \<open>\<open>str.strip()\<close> without argument removes leading and trailing whitespace.\<close>

definition strip :: "pystr \<Rightarrow> pystr" where
  "strip s = rev (dropWhile isspace (rev (dropWhile isspace s)))"

text \<open>\<open>x[:n]\<close>: defined on sequences, \<open>TypeError\<close> on \<open>None\<close> and on an integer
  (neither is subscriptable).\<close>

definition slice_to :: "nat \<Rightarrow> pyval \<Rightarrow> py_exception + pyval" where
  "slice_to n x =
     (case x of
        PyNone \<Rightarrow> Inl TypeError
      | PyInt i \<Rightarrow> Inl TypeError
      | PyStr s \<Rightarrow> Inr (PyStr (take n s))
      | PyList xs \<Rightarrow> Inr (PyList (take n xs)))"

section \<open>Floating-point arithmetic\<close>

text \<open>
  Rounding to binary64, to nearest with ties to even. For \<open>x > 0\<close> the exponent is
  \<open>binade x\<close>, the integer \<open>e\<close> with \<open>2^e \<le> x < 2^(e+1)\<close>, but not below \<open>-1022\<close>
  (subnormal numbers); the result is the multiple of \<open>2^(e-52)\<close> nearest to \<open>x\<close>.
  Overflow is not modelled: the quotients of the module lie in \<open>[0, 1]\<close>, the
  percentages in \<open>[0, 100]\<close>, and \<open>1 - threshold\<close> is finite for every finite threshold.
  NaN and the infinities are outside the model.
\<close>

text \<open>\<open>int.bit_length\<close>: the number of binary digits of a natural number.\<close>

fun bit_length :: "nat \<Rightarrow> nat" where
  "bit_length n = (if n = 0 then 0 else Suc (bit_length (n div 2)))"

declare bit_length.simps [simp del]

definition pow2 :: "int \<Rightarrow> rat" where
  "pow2 e = 2 powi e"

definition binade :: "rat \<Rightarrow> int" where
  "binade x =
     (if 1 \<le> x then int (bit_length (nat \<lfloor>x\<rfloor>)) - 1
      else - int (bit_length (nat (\<lceil>1 / x\<rceil> - 1))))"

definition round_half_even :: "rat \<Rightarrow> int" where
  "round_half_even m =
     (let f = \<lfloor>m\<rfloor>; r = m - of_int f in
      if r < 1 / 2 then f else if 1 / 2 < r then f + 1 else if even f then f else f + 1)"

definition round64 :: "rat \<Rightarrow> rat" where
  "round64 x =
     (if x = 0 then 0
      else
        (let a = \<bar>x\<bar>; e = max (binade a) (- 1022); q = pow2 (e - 52) in
         sgn x * of_int (round_half_even (a / q)) * q))"

text \<open>The exponent that \<open>round64\<close> uses for a positive number.\<close>

definition eff_exp :: "rat \<Rightarrow> int" where
  "eff_exp a = max (binade a) (- 1022)"

text \<open>The float operations \<open>+\<close>, \<open>-\<close> and \<open>*\<close>: the exact result, rounded.\<close>

definition float_add :: "rat \<Rightarrow> rat \<Rightarrow> rat" where
  "float_add x y = round64 (x + y)"

definition float_sub :: "rat \<Rightarrow> rat \<Rightarrow> rat" where
  "float_sub x y = round64 (x - y)"

definition float_mul :: "rat \<Rightarrow> rat \<Rightarrow> rat" where
  "float_mul x y = round64 (x * y)"

text \<open>True division of two counters: the correctly rounded quotient; Python raises on a
  zero divisor.\<close>

definition truediv :: "nat \<Rightarrow> nat \<Rightarrow> py_exception + rat" where
  "truediv a b =
     (if b = 0 then Inl ZeroDivisionError else Inr (round64 (of_nat a / of_nat b)))"

section \<open>Module state: the optional langdetect import\<close>

text \<open>
  \<open>langdetect.detect\<close> either returns a language code or raises
  \<open>LangDetectException\<close>; which of the two, and which code, is a parameter of the
  model. \<open>LANGDETECT_AVAILABLE\<close> records whether the import succeeded.
\<close>

datatype langdetect_outcome = Detected string | LangDetectException

record module_env =
  LANGDETECT_AVAILABLE :: bool
  langdetect_detect :: "pystr \<Rightarrow> langdetect_outcome"

section \<open>Data model\<close>

text \<open>The result dataclass; its field \<open>method\<close> is called \<open>detection_method\<close> here.\<close>

record LanguageDetectionResult =
  success :: bool
  language :: string
  confidence :: rat
  detection_method :: string
  text_sample :: pystr
  char_count :: nat
  error :: "string option"

text \<open>The dictionary returned by \<open>_detect_by_unicode\<close>.\<close>

record unicode_dict =
  u_language :: string
  u_confidence :: rat

text \<open>The dictionary returned by \<open>_detect_by_library\<close>.\<close>

record library_dict =
  l_success :: bool
  l_language :: string
  l_confidence :: rat

text \<open>The detector object: its only attribute is \<open>use_fallback\<close>.\<close>

record LanguageDetector =
  use_fallback :: bool

definition URDU_UNICODE_RANGES :: "(nat \<times> nat) list" where
  "URDU_UNICODE_RANGES =
     [(0x0600, 0x06FF), (0x0750, 0x077F), (0xFB50, 0xFDFF), (0xFE70, 0xFEFF)]"

text \<open>The float literal \<open>0.30\<close>.\<close>

definition URDU_THRESHOLD :: rat where
  "URDU_THRESHOLD = round64 (30 / 100)"

text \<open>The characters of \<open>'.,!?;:\'"()-[]{}'\<close> as code points.\<close>

definition PUNCTUATION :: pystr where
  "PUNCTUATION = [46, 44, 33, 63, 59, 58, 39, 34, 40, 41, 45, 91, 93, 123, 125]"

definition init_detector :: "module_env \<Rightarrow> bool \<Rightarrow> LanguageDetector" where
  "init_detector M use_library_fallback =
     \<lparr>use_fallback = (use_library_fallback \<and> LANGDETECT_AVAILABLE M)\<rparr>"

section \<open>Input validation\<close>

definition validate_input :: "pyval \<Rightarrow> string option" where
  "validate_input text =
     (case text of
        PyNone \<Rightarrow> Some ''Text cannot be None''
      | PyInt i \<Rightarrow> Some ''Text must be a string''
      | PyList xs \<Rightarrow> Some ''Text must be a string''
      | PyStr s \<Rightarrow>
          if strip s = [] then Some ''Text cannot be empty or only whitespace''
          else if length (strip s) < 3
          then Some ''Text too short for reliable detection (minimum 3 characters)''
          else None)"

text \<open>Truth value of an optional string, as tested by \<open>if validation_error:\<close>.\<close>

definition truthy :: "string option \<Rightarrow> bool" where
  "truthy v = (case v of None \<Rightarrow> False | Some s \<Rightarrow> s \<noteq> [])"

section \<open>Script classifier\<close>

text \<open>The inner loop over the range table: true iff the loop reaches its \<open>break\<close>.\<close>

fun in_ranges :: "(nat \<times> nat) list \<Rightarrow> nat \<Rightarrow> bool" where
  "in_ranges [] char_code = False"
| "in_ranges ((start, end) # rs) char_code =
     (if start \<le> char_code \<and> char_code \<le> end then True else in_ranges rs char_code)"

text \<open>The outer loop, threading \<open>(total_chars, urdu_chars)\<close>.\<close>

fun count_loop :: "pystr \<Rightarrow> nat \<times> nat \<Rightarrow> nat \<times> nat" where
  "count_loop [] (total_chars, urdu_chars) = (total_chars, urdu_chars)"
| "count_loop (char # rest) (total_chars, urdu_chars) =
     (if isspace char \<or> char \<in> set PUNCTUATION
      then count_loop rest (total_chars, urdu_chars)
      else count_loop rest
             (total_chars + 1,
              if in_ranges URDU_UNICODE_RANGES char then urdu_chars + 1 else urdu_chars))"

definition detect_by_unicode :: "pystr \<Rightarrow> py_exception + unicode_dict" where
  "detect_by_unicode text =
     (let (total_chars, urdu_chars) = count_loop text (0, 0) in
      if total_chars = 0 then Inr \<lparr>u_language = ''en'', u_confidence = 50\<rparr>
      else
        (case truediv urdu_chars total_chars of
           Inl e \<Rightarrow> Inl e
         | Inr q \<Rightarrow>
            (let urdu_percentage = float_mul q 100 in
             if urdu_percentage > float_mul URDU_THRESHOLD 100
             then Inr \<lparr>u_language = ''ur'',
                       u_confidence = min (float_add urdu_percentage 20) 99\<rparr>
             else Inr \<lparr>u_language = ''en'',
                       u_confidence = min (float_add (float_sub 100 urdu_percentage) 20) 99\<rparr>)))"

section \<open>Statistical fallback\<close>

definition detect_by_library :: "module_env \<Rightarrow> pystr \<Rightarrow> library_dict" where
  "detect_by_library M text =
     (if \<not> LANGDETECT_AVAILABLE M
      then \<lparr>l_success = False, l_language = '''', l_confidence = 0\<rparr>
      else
        (case langdetect_detect M text of
           Detected detected_lang \<Rightarrow>
             if detected_lang = ''ur''
             then \<lparr>l_success = True, l_language = ''ur'', l_confidence = 95\<rparr>
             else if detected_lang = ''en''
             then \<lparr>l_success = True, l_language = ''en'', l_confidence = 95\<rparr>
             else \<lparr>l_success = True, l_language = ''en'', l_confidence = 60\<rparr>
         | LangDetectException \<Rightarrow>
             \<lparr>l_success = False, l_language = '''', l_confidence = 0\<rparr>))"

section \<open>Detection pipeline\<close>

text \<open>Steps 2 to 4 of \<open>detect\<close>, on a text that is known to be a string.\<close>

definition detect_steps ::
  "module_env \<Rightarrow> LanguageDetector \<Rightarrow> pystr \<Rightarrow> py_exception + LanguageDetectionResult" where
  "detect_steps M self text =
     (case detect_by_unicode text of
        Inl e \<Rightarrow> Inl e
      | Inr unicode_result \<Rightarrow>
          (let by_unicode =
                 \<lparr>success = True, language = u_language unicode_result,
                  confidence = u_confidence unicode_result, detection_method = ''unicode'',
                  text_sample = take 100 text, char_count = length text, error = None\<rparr>
           in
           if u_confidence unicode_result > 70 then Inr by_unicode
           else if use_fallback self then
             (let library_result = detect_by_library M text in
              if l_success library_result
              then Inr \<lparr>success = True, language = l_language library_result,
                        confidence = l_confidence library_result, detection_method = ''library'',
                        text_sample = take 100 text, char_count = length text,
                        error = None\<rparr>
              else Inr by_unicode)
           else Inr by_unicode))"

text \<open>
  \<open>detect\<close> first formats \<open>text[:50]\<close> into its debug message, then validates. A value
  that passed validation is a string; the last branch stands for the remaining, unreachable
  combinations.
\<close>

definition detect ::
  "module_env \<Rightarrow> LanguageDetector \<Rightarrow> pyval \<Rightarrow> py_exception + LanguageDetectionResult" where
  "detect M self text =
     (case slice_to 50 text of
        Inl e \<Rightarrow> Inl e
      | Inr logged \<Rightarrow>
          (let validation_error = validate_input text in
           if truthy validation_error
           then Inr \<lparr>success = False, language = '''', confidence = 0, detection_method = '''',
                     text_sample = [], char_count = 0, error = validation_error\<rparr>
           else
             (case text of
                PyStr s \<Rightarrow> detect_steps M self s
              | _ \<Rightarrow> Inl TypeError)))"

section \<open>Mixed-language query\<close>

text \<open>The second counting loop of \<open>is_mixed_language\<close>, which only tracks \<open>urdu_chars\<close>.
  The threshold is a finite float.\<close>

fun urdu_loop :: "pystr \<Rightarrow> nat \<Rightarrow> nat" where
  "urdu_loop [] urdu_chars = urdu_chars"
| "urdu_loop (char # rest) urdu_chars =
     (if isspace char \<or> char \<in> set PUNCTUATION then urdu_loop rest urdu_chars
      else urdu_loop rest
             (if in_ranges URDU_UNICODE_RANGES char then urdu_chars + 1 else urdu_chars))"

definition is_mixed_language :: "pystr \<Rightarrow> rat \<Rightarrow> py_exception + bool" where
  "is_mixed_language text threshold =
     (case detect_by_unicode text of
        Inl e \<Rightarrow> Inl e
      | Inr unicode_result \<Rightarrow>
          (let total_chars =
                 sum_list (map (\<lambda>char. 1)
                   (filter (\<lambda>char. \<not> isspace char \<and> char \<notin> set PUNCTUATION) text))
           in
           if total_chars = 0 then Inr False
           else
             (case truediv (urdu_loop text 0) total_chars of
                Inl e \<Rightarrow> Inl e
              | Inr urdu_percentage \<Rightarrow>
                  Inr (threshold \<le> urdu_percentage \<and>
                       urdu_percentage \<le> float_sub 1 threshold))))"

section \<open>Convenience functions\<close>

definition detect_language ::
  "module_env \<Rightarrow> pyval \<Rightarrow> py_exception + LanguageDetectionResult" where
  "detect_language M text = detect M (init_detector M True) text"

definition quick_detect :: "module_env \<Rightarrow> pyval \<Rightarrow> py_exception + string" where
  "quick_detect M text =
     (case detect_language M text of
        Inl e \<Rightarrow> Inl e
      | Inr result \<Rightarrow> Inr (if success result then language result else ''en''))"

section \<open>Character statistics\<close>

text \<open>
  The counters of the classifier's loop for a whole text, and the exact ratio of
  target-script characters among the analyzable ones. \<open>percentage r\<close> is the float that
  the classifier computes as \<open>(urdu_chars / total_chars) * 100\<close> when the exact ratio
  is \<open>r\<close>.
\<close>

definition total_chars_of :: "pystr \<Rightarrow> nat" where
  "total_chars_of text = fst (count_loop text (0, 0))"

definition urdu_chars_of :: "pystr \<Rightarrow> nat" where
  "urdu_chars_of text = snd (count_loop text (0, 0))"

definition script_ratio :: "pystr \<Rightarrow> rat" where
  "script_ratio text = of_nat (urdu_chars_of text) / of_nat (total_chars_of text)"

text \<open>
  The glossary's notions, stated on their own: an analyzable character is neither
  whitespace nor in the punctuation set, a target-script character lies in one of the four
  Arabic blocks. The lemmas below show that the loops count exactly these.
\<close>

definition percentage :: "rat \<Rightarrow> rat" where
  "percentage r = float_mul (round64 r) 100"

definition analyzable :: "nat \<Rightarrow> bool" where
  "analyzable c = (\<not> isspace c \<and> c \<notin> set PUNCTUATION)"

definition target_script :: "nat \<Rightarrow> bool" where
  "target_script c =
     ((0x0600 \<le> c \<and> c \<le> 0x06FF) \<or> (0x0750 \<le> c \<and> c \<le> 0x077F) \<or>
      (0xFB50 \<le> c \<and> c \<le> 0xFDFF) \<or> (0xFE70 \<le> c \<and> c \<le> 0xFEFF))"

text \<open>Distance of the ratio from the 50/50 midpoint.\<close>

definition midpoint_distance :: "pystr \<Rightarrow> rat" where
  "midpoint_distance s = \<bar>script_ratio s - 1 / 2\<bar>"

section \<open>Sample inputs\<close>

text \<open>\<open>"Hello World"\<close>\<close>

definition hello_world :: pystr where
  "hello_world = [72, 101, 108, 108, 111, 32, 87, 111, 114, 108, 100]"

text \<open>The Urdu greeting of the test-suite: U+0633 U+0644 U+0627 U+0645, a space,
  U+062F U+0646 U+06CC U+0627.\<close>

definition salam_dunya :: pystr where
  "salam_dunya = [1587, 1604, 1575, 1605, 32, 1583, 1606, 1740, 1575]"

text \<open>\<open>"Hello World"\<close>, a space and the Urdu greeting (the mixed text of the test-suite).\<close>

definition hello_world_salam_dunya :: pystr where
  "hello_world_salam_dunya = hello_world @ [32] @ salam_dunya"

text \<open>\<open>"Hi!"\<close>\<close>

definition hi_bang :: pystr where
  "hi_bang = [72, 105, 33]"

text \<open>\<open>"!!! ??? ..."\<close>\<close>

definition only_punctuation :: pystr where
  "only_punctuation = [33, 33, 33, 32, 63, 63, 63, 32, 46, 46, 46]"

text \<open>\<open>"ab"\<close> and \<open>"abc"\<close>, each followed by a space and U+0633 U+0644.\<close>

definition ab_sl :: pystr where
  "ab_sl = [97, 98, 32, 1587, 1604]"

definition abc_sl :: pystr where
  "abc_sl = [97, 98, 99, 32, 1587, 1604]"

text \<open>Eight times \<open>a\<close> followed by seventeen times U+0633 (ratio 17/25), and \<open>"abcd"\<close>
  followed by U+0633 (ratio 1/5).\<close>

definition a8_s17 :: pystr where
  "a8_s17 =
     [97, 97, 97, 97, 97, 97, 97, 97,
      1587, 1587, 1587, 1587, 1587, 1587, 1587, 1587, 1587, 1587, 1587, 1587, 1587, 1587,
      1587, 1587, 1587]"

definition abcd_s :: pystr where
  "abcd_s = [97, 98, 99, 100, 1587]"

text \<open>Seven times U+0633 followed by \<open>"aa"\<close> (ratio 7/9), and seven times \<open>a\<close> followed
  by twice U+0633 (ratio 2/9): the same distance from the midpoint on either side.\<close>

definition s7_a2 :: pystr where
  "s7_a2 = [1587, 1587, 1587, 1587, 1587, 1587, 1587, 97, 97]"

definition a7_s2 :: pystr where
  "a7_s2 = [97, 97, 97, 97, 97, 97, 97, 1587, 1587]"

text \<open>A module in which langdetect is installed and reports Persian.\<close>

definition env_fa :: module_env where
  "env_fa = \<lparr>LANGDETECT_AVAILABLE = True, langdetect_detect = (\<lambda>t. Detected ''fa'')\<rparr>"

section \<open>Properties of the rounding function\<close>

lemma floor_rat_numeral [simp]:
  "\<lfloor>numeral a / numeral b :: rat\<rfloor> = numeral a div numeral b"
  by (metis floor_divide_of_int_eq of_int_numeral)

lemma ceiling_rat_numeral [simp]:
  "\<lceil>numeral a / numeral b :: rat\<rceil> = - (- numeral a div numeral b)"
  using ceiling_divide_eq_div [of "numeral a" "numeral b", where ?'a = rat] by simp

lemma bit_length_bounds: "0 < n \<Longrightarrow> 2 ^ (bit_length n - 1) \<le> n \<and> n < 2 ^ bit_length n"
proof (induction n rule: bit_length.induct)
  case (1 n)
  show ?case
  proof (cases "n div 2 = 0")
    case True
    with "1.prems" have "n = 1" by (simp add: div_eq_0_iff)
    then show ?thesis by (simp add: bit_length.simps)
  next
    case False
    with "1.IH" "1.prems" have ih: "2 ^ (bit_length (n div 2) - 1) \<le> n div 2"
      "n div 2 < 2 ^ bit_length (n div 2)" by simp_all
    have pos: "0 < bit_length (n div 2)"
      using False by (simp add: bit_length.simps [of "n div 2"])
    have b: "bit_length n = Suc (bit_length (n div 2))"
      using "1.prems" by (simp add: bit_length.simps [of n])
    from pos have e: "2 ^ bit_length (n div 2) = 2 * (2::nat) ^ (bit_length (n div 2) - 1)"
      by (cases "bit_length (n div 2)") simp_all
    from ih(1) have "2 * 2 ^ (bit_length (n div 2) - 1) \<le> n" by linarith
    moreover from ih(2) have "n < 2 * 2 ^ bit_length (n div 2)" by linarith
    ultimately show ?thesis using b e by simp
  qed
qed

lemma bit_length_bounds_rat:
  assumes "0 < n"
  shows "(2::rat) ^ (bit_length n - 1) \<le> of_nat n"
    and "(of_nat n :: rat) + 1 \<le> 2 ^ bit_length n"
proof -
  from bit_length_bounds [OF assms]
  have b: "2 ^ (bit_length n - 1) \<le> n" "n + 1 \<le> 2 ^ bit_length n" by simp_all
  from b(1) have "(of_nat (2 ^ (bit_length n - 1)) :: rat) \<le> of_nat n"
    by (simp only: of_nat_le_iff)
  then show "(2::rat) ^ (bit_length n - 1) \<le> of_nat n" by simp
  from b(2) have "(of_nat (n + 1) :: rat) \<le> of_nat (2 ^ bit_length n)"
    by (simp only: of_nat_le_iff)
  then show "(of_nat n :: rat) + 1 \<le> 2 ^ bit_length n" by simp
qed

lemma bit_length_pos: "0 < n \<Longrightarrow> 0 < bit_length n"
  by (simp add: bit_length.simps [of n])

lemma pow2_pos [simp]: "0 < pow2 e"
  by (simp add: pow2_def)

lemma pow2_nonneg [simp]: "0 \<le> pow2 e"
  using pow2_pos [of e] by (rule less_imp_le)

lemma pow2_add: "pow2 (a + b) = pow2 a * pow2 b"
  by (simp add: pow2_def power_int_add)

lemma pow2_mono: "a \<le> b \<Longrightarrow> pow2 a \<le> pow2 b"
  by (simp add: pow2_def power_int_increasing)

lemma pow2_less_iff: "pow2 a < pow2 b \<longleftrightarrow> a < b"
proof
  assume "pow2 a < pow2 b"
  show "a < b"
  proof (rule ccontr)
    assume "\<not> a < b"
    then have "b \<le> a" by simp
    from pow2_mono [OF this] \<open>pow2 a < pow2 b\<close> show False by simp
  qed
next
  assume "a < b"
  then show "pow2 a < pow2 b"
    by (simp add: pow2_def power_int_strict_increasing)
qed

lemma pow2_nat: "pow2 (int n) = 2 ^ n"
  by (simp add: pow2_def)

lemma pow2_neg_nat: "pow2 (- int n) = 1 / 2 ^ n"
  by (simp add: pow2_def power_int_minus_divide)

text \<open>\<open>binade x\<close> is the exponent of the power of two at or below \<open>x\<close>.\<close>

lemma binade_bounds:
  assumes "0 < x"
  shows "pow2 (binade x) \<le> x \<and> x < pow2 (binade x + 1)"
proof (cases "1 \<le> x")
  case True
  define n where "n = nat \<lfloor>x\<rfloor>"
  from True have f: "1 \<le> \<lfloor>x\<rfloor>" by (simp add: le_floor_iff)
  then have n0: "0 < n" by (simp add: n_def)
  from f have c: "(of_nat n :: rat) = of_int \<lfloor>x\<rfloor>" by (simp add: n_def)
  have n1: "of_nat n \<le> x" unfolding c by (rule of_int_floor_le)
  have n2: "x < of_nat n + 1" unfolding c using floor_correct [of x] by simp
  note b = bit_length_bounds_rat [OF n0]
  have k: "0 < bit_length n" by (rule bit_length_pos [OF n0])
  have "binade x = int (bit_length n) - 1"
    using True by (simp add: binade_def n_def)
  with k have e: "pow2 (binade x) = 2 ^ (bit_length n - 1)"
    "pow2 (binade x + 1) = 2 ^ bit_length n"
    using pow2_nat [of "bit_length n - 1"] pow2_nat [of "bit_length n"]
    by (simp_all add: of_nat_diff)
  show ?thesis
    unfolding e using b n1 n2 by linarith
next
  case False
  define y where "y = 1 / x"
  define n where "n = nat (\<lceil>y\<rceil> - 1)"
  from False assms have y: "1 < y" by (simp add: y_def)
  then have c2: "2 \<le> \<lceil>y\<rceil>" by (simp add: le_ceiling_iff)
  then have n0: "0 < n" by (simp add: n_def)
  from c2 have c: "(of_nat n :: rat) = of_int \<lceil>y\<rceil> - 1" by (simp add: n_def)
  have n1: "of_nat n < y" unfolding c using ceiling_correct [of y] by simp
  have n2: "y \<le> of_nat n + 1" unfolding c by (simp add: le_of_int_ceiling)
  note b = bit_length_bounds_rat [OF n0]
  have k: "0 < bit_length n" by (rule bit_length_pos [OF n0])
  have "binade x = - int (bit_length n)"
    using False by (simp add: binade_def n_def y_def)
  with k have e: "pow2 (binade x) = 1 / 2 ^ bit_length n"
    "pow2 (binade x + 1) = 1 / 2 ^ (bit_length n - 1)"
    using pow2_neg_nat [of "bit_length n"] pow2_neg_nat [of "bit_length n - 1"]
    by (simp_all add: of_nat_diff)
  from b(1) n1 have u: "(2::rat) ^ (bit_length n - 1) < y" by linarith
  from b(2) n2 have l: "y \<le> 2 ^ bit_length n" by linarith
  have x: "x = 1 / y" using assms by (simp add: y_def)
  have "1 / 2 ^ bit_length n \<le> x"
    unfolding x using l y by (simp add: frac_le)
  moreover have "x < 1 / 2 ^ (bit_length n - 1)"
    unfolding x using u y by (simp add: frac_less2)
  ultimately show ?thesis
    unfolding e by simp
qed

lemma binade_mono:
  assumes "0 < x" and "x \<le> y"
  shows "binade x \<le> binade y"
proof -
  from assms have "0 < y" by simp
  from binade_bounds [OF assms(1)] binade_bounds [OF this] assms(2)
  have "pow2 (binade x) < pow2 (binade y + 1)" by linarith
  then show ?thesis by (simp add: pow2_less_iff)
qed

lemma rhe_of_int [simp]: "round_half_even (of_int n) = n"
  by (simp add: round_half_even_def)

lemma rhe_mono:
  assumes "m \<le> m'"
  shows "round_half_even m \<le> round_half_even m'"
proof (cases "\<lfloor>m\<rfloor> = \<lfloor>m'\<rfloor>")
  case True
  with assms show ?thesis
    by (auto simp: round_half_even_def Let_def)
next
  case False
  with assms have "\<lfloor>m\<rfloor> + 1 \<le> \<lfloor>m'\<rfloor>"
    using floor_mono [OF assms] by linarith
  moreover have "round_half_even m \<le> \<lfloor>m\<rfloor> + 1"
    by (auto simp: round_half_even_def Let_def)
  moreover have "\<lfloor>m'\<rfloor> \<le> round_half_even m'"
    by (auto simp: round_half_even_def Let_def)
  ultimately show ?thesis by linarith
qed

lemma rhe_nonneg: "0 \<le> m \<Longrightarrow> 0 \<le> round_half_even m"
  using rhe_mono [of 0 m] rhe_of_int [of 0] by simp

lemma round64_pos:
  "0 < x \<Longrightarrow>
     round64 x = of_int (round_half_even (x / pow2 (eff_exp x - 52))) * pow2 (eff_exp x - 52)"
  by (simp add: round64_def Let_def eff_exp_def)

lemma round64_zero [simp]: "round64 0 = 0"
  by (simp add: round64_def)

lemma round64_minus: "round64 (- x) = - round64 x"
  by (simp add: round64_def Let_def sgn_minus)

lemma round64_nonneg: "0 \<le> x \<Longrightarrow> 0 \<le> round64 x"
proof (cases "x = 0")
  case False
  assume "0 \<le> x"
  with False have x: "0 < x" by simp
  have "0 \<le> x / pow2 (eff_exp x - 52)" using x by simp
  from rhe_nonneg [OF this] show ?thesis
    unfolding round64_pos [OF x] by simp
qed simp

lemma pow2_split: "pow2 e = of_int (2 ^ 52) * pow2 (e - 52)"
  using pow2_add [of 52 "e - 52"] by (simp add: pow2_def)

lemma pow2_split_succ: "pow2 (e + 1) = of_int (2 ^ 53) * pow2 (e - 52)"
  using pow2_add [of 53 "e - 52"] by (simp add: pow2_def add.commute)

lemma round64_ge_pow2:
  assumes "0 < y" and "eff_exp y = binade y"
  shows "pow2 (eff_exp y) \<le> round64 y"
proof -
  let ?q = "pow2 (eff_exp y - 52)"
  have "pow2 (eff_exp y) \<le> y" using binade_bounds [OF assms(1)] assms(2) by simp
  then have "of_int (2 ^ 52) * ?q \<le> y" using pow2_split [of "eff_exp y"] by simp
  then have "of_int (2 ^ 52) \<le> y / ?q" by (simp add: pos_le_divide_eq)
  from rhe_mono [OF this] have "2 ^ 52 \<le> round_half_even (y / ?q)"
    unfolding rhe_of_int .
  then have "(of_int (2 ^ 52) :: rat) \<le> of_int (round_half_even (y / ?q))"
    by (simp only: of_int_le_iff)
  then have "of_int (2 ^ 52) * ?q \<le> of_int (round_half_even (y / ?q)) * ?q"
    by (simp add: mult_right_mono)
  then show ?thesis
    unfolding round64_pos [OF assms(1)] using pow2_split [of "eff_exp y"] by simp
qed

lemma round64_le_pow2:
  assumes "0 < x"
  shows "round64 x \<le> pow2 (eff_exp x + 1)"
proof -
  let ?q = "pow2 (eff_exp x - 52)"
  have "binade x + 1 \<le> eff_exp x + 1" by (simp add: eff_exp_def)
  from pow2_mono [OF this] binade_bounds [OF assms]
  have "x \<le> pow2 (eff_exp x + 1)" by linarith
  then have "x \<le> of_int (2 ^ 53) * ?q" using pow2_split_succ [of "eff_exp x"] by simp
  then have "x / ?q \<le> of_int (2 ^ 53)" by (simp add: pos_divide_le_eq)
  from rhe_mono [OF this] have "round_half_even (x / ?q) \<le> 2 ^ 53"
    unfolding rhe_of_int .
  then have "(of_int (round_half_even (x / ?q)) :: rat) \<le> of_int (2 ^ 53)"
    by (simp only: of_int_le_iff)
  then have "of_int (round_half_even (x / ?q)) * ?q \<le> of_int (2 ^ 53) * ?q"
    by (simp add: mult_right_mono)
  then show ?thesis
    unfolding round64_pos [OF assms] using pow2_split_succ [of "eff_exp x"] by simp
qed

lemma round64_mono_pos:
  assumes "0 < x" and "x \<le> y"
  shows "round64 x \<le> round64 y"
proof -
  from assms have y: "0 < y" by simp
  have le: "eff_exp x \<le> eff_exp y"
    using binade_mono [OF assms] by (simp add: eff_exp_def)
  show ?thesis
  proof (cases "eff_exp x = eff_exp y")
    case True
    let ?q = "pow2 (eff_exp y - 52)"
    from assms(2) have "x / ?q \<le> y / ?q" by (simp add: divide_right_mono)
    from rhe_mono [OF this]
    have "(of_int (round_half_even (x / ?q)) :: rat) \<le> of_int (round_half_even (y / ?q))"
      by (simp only: of_int_le_iff)
    then have "of_int (round_half_even (x / ?q)) * ?q \<le> of_int (round_half_even (y / ?q)) * ?q"
      by (simp add: mult_right_mono)
    then show ?thesis
      unfolding round64_pos [OF assms(1)] round64_pos [OF y] True .
  next
    case False
    with le have lt: "eff_exp x + 1 \<le> eff_exp y" by simp
    then have "eff_exp y = binade y"
      by (simp add: eff_exp_def max_def split: if_splits)
    from round64_ge_pow2 [OF y this] round64_le_pow2 [OF assms(1)] pow2_mono [OF lt]
    show ?thesis by linarith
  qed
qed

text \<open>Rounding never reverses an order: correctly rounded operations are monotone.\<close>

lemma round64_mono:
  assumes "x \<le> y"
  shows "round64 x \<le> round64 y"
proof -
  consider "0 < x" | "x \<le> 0" "0 \<le> y" | "y < 0" by linarith
  then show ?thesis
  proof cases
    case 1
    then show ?thesis using assms by (rule round64_mono_pos)
  next
    case 2
    from 2(1) have "0 \<le> round64 (- x)" by (simp add: round64_nonneg)
    then have "round64 x \<le> 0" by (simp add: round64_minus)
    with round64_nonneg [OF 2(2)] show ?thesis by linarith
  next
    case 3
    with assms have "0 < - y" "- y \<le> - x" by simp_all
    from round64_mono_pos [OF this] show ?thesis by (simp add: round64_minus)
  qed
qed

lemmas round64_eval = binade_def pow2_def round_half_even_def bit_length.simps

section \<open>Values of the rounded operations used below\<close>

lemma round64_small_ints:
  "round64 1 = 1" "round64 50 = 50" "round64 70 = 70" "round64 90 = 90" "round64 120 = 120"
  unfolding round64_def Let_def by (simp_all add: round64_eval)

lemma threshold_value: "float_mul URDU_THRESHOLD 100 = 30"
  unfolding float_mul_def URDU_THRESHOLD_def round64_def Let_def by (simp add: round64_eval)

lemma percentage_values:
  "percentage 0 = 0"
  "percentage (3 / 10) = 30"
  "percentage (2 / 5) = 40"
  "percentage (1 / 2) = 50"
  "percentage (4 / 9) = 6254999482459022 / 2 ^ 47"
  "percentage (3 / 10 + 1 / (10 * 2 ^ 52)) = 8444249301319681 / 2 ^ 48"
  "percentage (1 / 2 + 1 / 2 ^ 53) = 3518437208883201 / 2 ^ 46"
  unfolding percentage_def float_mul_def round64_def Let_def by (simp_all add: round64_eval)

lemma float_add_values:
  "float_add 30 20 = 50"
  "float_add 40 20 = 60"
  "float_add 50 20 = 70"
  "float_add (6254999482459022 / 2 ^ 47) 20 = 4534874624782791 / 2 ^ 46"
  "float_add (3518437208883201 / 2 ^ 46) 20 = 4925812092436481 / 2 ^ 46"
  "float_add (float_sub 100 0) 20 = 120"
  "float_add (float_sub 100 30) 20 = 90"
  unfolding float_add_def float_sub_def round64_def Let_def by (simp_all add: round64_eval)

lemma threshold_floats:
  "round64 (32 / 100) = 5764607523034235 / 2 ^ 54"
  "float_sub 1 (5764607523034235 / 2 ^ 54) = 6124895493223874 / 2 ^ 53"
  "round64 (17 / 25) = 6124895493223875 / 2 ^ 53"
  "round64 (1 / 5) = 7205759403792794 / 2 ^ 55"
  "float_sub 1 (7205759403792794 / 2 ^ 55) = 7205759403792794 / 2 ^ 53"
  unfolding float_sub_def round64_def Let_def by (simp_all add: round64_eval)

text \<open>The mixed sample text has ratio 4/9: percentage 44.44444444444444, confidence
  64.44444444444444.\<close>

lemma mixed_floats:
  "30 < percentage (4 / 9)"
  "float_add (percentage (4 / 9)) 20 = 4534874624782791 / 2 ^ 46"
proof -
  show "30 < percentage (4 / 9)" by (simp add: percentage_values)
  show "float_add (percentage (4 / 9)) 20 = 4534874624782791 / 2 ^ 46"
    by (simp only: percentage_values float_add_values)
qed

text \<open>Ratios 7/9 and 2/9: confidences 97.77777777777779 and 97.77777777777777.\<close>

lemma mirrored_steps:
  "round64 (7 / 9) = 7005599420354105 / 2 ^ 53"
  "float_mul (7005599420354105 / 2 ^ 53) 100 = 5473124547151645 / 2 ^ 46"
  "float_add (5473124547151645 / 2 ^ 46) 20 = 6880499430704925 / 2 ^ 46"
  "round64 (2 / 9) = 2001599834386887 / 2 ^ 53"
  "float_mul (2001599834386887 / 2 ^ 53) 100 = 3127499741229511 / 2 ^ 47"
  "float_sub 100 (3127499741229511 / 2 ^ 47) = 1368281136787911 / 2 ^ 44"
  "float_add (1368281136787911 / 2 ^ 44) 20 = 1720124857676231 / 2 ^ 44"
  unfolding float_mul_def float_add_def float_sub_def round64_def Let_def
  by (simp_all add: round64_eval)

lemma mirrored_floats:
  "30 < percentage (7 / 9)"
  "float_add (percentage (7 / 9)) 20 = 6880499430704925 / 2 ^ 46"
  "\<not> 30 < percentage (2 / 9)"
  "float_add (float_sub 100 (percentage (2 / 9))) 20 = 1720124857676231 / 2 ^ 44"
proof -
  have p: "percentage (7 / 9) = 5473124547151645 / 2 ^ 46"
    "percentage (2 / 9) = 3127499741229511 / 2 ^ 47"
    by (simp_all only: percentage_def mirrored_steps)
  show "30 < percentage (7 / 9)" "\<not> 30 < percentage (2 / 9)"
    by (simp_all add: p)
  show "float_add (percentage (7 / 9)) 20 = 6880499430704925 / 2 ^ 46"
    "float_add (float_sub 100 (percentage (2 / 9))) 20 = 1720124857676231 / 2 ^ 44"
    by (simp_all only: p mirrored_steps)
qed

section \<open>Monotonicity of the classifier's arithmetic\<close>

lemma percentage_mono: "r \<le> r' \<Longrightarrow> percentage r \<le> percentage r'"
  unfolding percentage_def float_mul_def
  by (intro round64_mono mult_right_mono) simp_all

lemma percentage_nonneg: "0 \<le> r \<Longrightarrow> 0 \<le> percentage r"
  using percentage_mono [of 0 r] by (simp add: percentage_values)

lemma float_add_mono: "p \<le> p' \<Longrightarrow> float_add p c \<le> float_add p' c"
  unfolding float_add_def by (intro round64_mono) simp

lemma float_sub_antimono: "p \<le> p' \<Longrightarrow> float_sub c p' \<le> float_sub c p"
  unfolding float_sub_def by (intro round64_mono) simp

lemma en_confidence_antimono:
  "p \<le> p' \<Longrightarrow> float_add (float_sub 100 p') 20 \<le> float_add (float_sub 100 p) 20"
  by (intro float_add_mono float_sub_antimono)

section \<open>The counting loops compute the glossary's counts\<close>

lemma in_ranges_urdu: "in_ranges URDU_UNICODE_RANGES c = target_script c"
  by (simp add: URDU_UNICODE_RANGES_def target_script_def)

lemma count_loop_filter:
  "count_loop s (t, u) =
     (t + length (filter analyzable s),
      u + length (filter (\<lambda>c. analyzable c \<and> target_script c) s))"
  by (induction s arbitrary: t u) (simp_all add: analyzable_def in_ranges_urdu)

lemma total_chars_of_filter: "total_chars_of s = length (filter analyzable s)"
  by (simp add: total_chars_of_def count_loop_filter)

lemma urdu_chars_of_filter:
  "urdu_chars_of s = length (filter (\<lambda>c. analyzable c \<and> target_script c) s)"
  by (simp add: urdu_chars_of_def count_loop_filter)

lemma urdu_le_total: "urdu_chars_of s \<le> total_chars_of s"
proof -
  have "length (filter target_script (filter analyzable s)) \<le> length (filter analyzable s)"
    by (rule length_filter_le)
  then show ?thesis
    by (simp add: urdu_chars_of_filter total_chars_of_filter)
qed

lemma urdu_loop_filter:
  "urdu_loop s u = u + length (filter (\<lambda>c. analyzable c \<and> target_script c) s)"
  by (induction s arbitrary: u) (simp_all add: analyzable_def in_ranges_urdu)

lemma sum_ones: "sum_list (map (\<lambda>c. Suc 0) xs) = length xs"
  by (induction xs) simp_all

lemma script_ratio_bounds: "0 \<le> script_ratio s \<and> script_ratio s \<le> 1"
proof (cases "total_chars_of s = 0")
  case True
  then show ?thesis by (simp add: script_ratio_def)
next
  case False
  with urdu_le_total [of s] show ?thesis
    by (simp add: script_ratio_def)
qed

lemma total_pos_of_ratio: "0 < script_ratio s \<Longrightarrow> 0 < total_chars_of s"
  by (cases "total_chars_of s = 0") (simp_all add: script_ratio_def)

section \<open>What each stage returns\<close>

text \<open>The guard on \<open>total_chars\<close> keeps the division from raising, so the classifier
  always returns its dictionary. The threshold \<open>0.30 * 100\<close> is exactly 30.\<close>

lemma detect_by_unicode_eq:
  "detect_by_unicode s =
     Inr (if total_chars_of s = 0 then \<lparr>u_language = ''en'', u_confidence = 50\<rparr>
          else if 30 < percentage (script_ratio s)
          then \<lparr>u_language = ''ur'',
                u_confidence = min (float_add (percentage (script_ratio s)) 20) 99\<rparr>
          else \<lparr>u_language = ''en'',
                u_confidence =
                  min (float_add (float_sub 100 (percentage (script_ratio s))) 20) 99\<rparr>)"
  by (simp add: detect_by_unicode_def total_chars_of_def urdu_chars_of_def script_ratio_def
      truediv_def threshold_value percentage_def split: prod.splits)

lemma truthy_validate: "truthy (validate_input x) = (validate_input x \<noteq> None)"
  by (simp add: truthy_def validate_input_def split: pyval.splits)

lemma validate_None_str: "validate_input x = None \<Longrightarrow> \<exists>s. x = PyStr s"
  by (simp add: validate_input_def split: pyval.splits)

lemma detect_valid_str:
  "validate_input (PyStr s) = None \<Longrightarrow> detect M self (PyStr s) = detect_steps M self s"
  by (simp add: detect_def slice_to_def truthy_def)

lemma detect_steps_eq:
  "detect_steps M self s =
     (case detect_by_unicode s of Inl e \<Rightarrow> Inl e | Inr a \<Rightarrow>
        Inr (if 70 < u_confidence a \<or> \<not> use_fallback self \<or>
                \<not> l_success (detect_by_library M s)
             then \<lparr>success = True, language = u_language a, confidence = u_confidence a,
                   detection_method = ''unicode'', text_sample = take 100 s, char_count = length s,
                   error = None\<rparr>
             else \<lparr>success = True, language = l_language (detect_by_library M s),
                   confidence = l_confidence (detect_by_library M s), detection_method = ''library'',
                   text_sample = take 100 s, char_count = length s, error = None\<rparr>))"
  by (simp add: detect_steps_def Let_def split: sum.splits)

section \<open>Evaluation of the sample inputs\<close>

lemmas eval_defs = isspace_def PUNCTUATION_def URDU_UNICODE_RANGES_def

lemma count_hello_world: "count_loop hello_world (0, 0) = (10, 0)"
  by (simp add: hello_world_def eval_defs)

lemma count_salam_dunya: "count_loop salam_dunya (0, 0) = (8, 8)"
  by (simp add: salam_dunya_def eval_defs)

lemma count_mixed: "count_loop hello_world_salam_dunya (0, 0) = (18, 8)"
  by (simp add: hello_world_salam_dunya_def hello_world_def salam_dunya_def eval_defs)

lemma count_only_punctuation: "count_loop only_punctuation (0, 0) = (0, 0)"
  by (simp add: only_punctuation_def eval_defs)

lemma count_ab_sl: "count_loop ab_sl (0, 0) = (4, 2)"
  by (simp add: ab_sl_def eval_defs)

lemma count_abc_sl: "count_loop abc_sl (0, 0) = (5, 2)"
  by (simp add: abc_sl_def eval_defs)

lemma count_hi_bang: "count_loop hi_bang (0, 0) = (2, 0)"
  by (simp add: hi_bang_def eval_defs)

lemma count_a8_s17: "count_loop a8_s17 (0, 0) = (25, 17)"
  by (simp add: a8_s17_def eval_defs)

lemma count_abcd_s: "count_loop abcd_s (0, 0) = (5, 1)"
  by (simp add: abcd_s_def eval_defs)

lemma count_s7_a2: "count_loop s7_a2 (0, 0) = (9, 7)"
  by (simp add: s7_a2_def eval_defs)

lemma count_a7_s2: "count_loop a7_s2 (0, 0) = (9, 2)"
  by (simp add: a7_s2_def eval_defs)

lemmas count_evals = count_hello_world count_salam_dunya count_mixed count_only_punctuation
  count_ab_sl count_abc_sl count_hi_bang count_a8_s17 count_abcd_s count_s7_a2 count_a7_s2

lemmas stat_defs = total_chars_of_def urdu_chars_of_def script_ratio_def midpoint_distance_def

lemma valid_hello_world: "validate_input (PyStr hello_world) = None"
  by (simp add: validate_input_def strip_def isspace_def hello_world_def)

lemma valid_mixed: "validate_input (PyStr hello_world_salam_dunya) = None"
  by (simp add: validate_input_def strip_def isspace_def hello_world_salam_dunya_def
      hello_world_def salam_dunya_def)

lemma valid_hi_bang: "validate_input (PyStr hi_bang) = None"
  by (simp add: validate_input_def strip_def isspace_def hi_bang_def)

lemma detect_empty:
  "detect M self (PyStr []) =
     Inr \<lparr>success = False, language = '''', confidence = 0, detection_method = '''', text_sample = [],
          char_count = 0, error = Some ''Text cannot be empty or only whitespace''\<rparr>"
  by (simp add: detect_def slice_to_def validate_input_def strip_def truthy_def)

lemma detect_Hi_bang_succeeds: "\<exists>r. detect M self (PyStr [72, 105, 33]) = Inr r \<and> success r"
  by (simp add: detect_def slice_to_def validate_input_def strip_def isspace_def truthy_def
      detect_steps_eq detect_by_unicode_eq)

lemma detect_rejects_in_band:
  "\<exists>r. detect M self (PyStr []) = Inr r \<and> \<not> success r"
  "\<exists>r. detect M self (PyStr [32, 32]) = Inr r \<and> \<not> success r"
  "\<exists>r. detect M self (PyStr [72, 105]) = Inr r \<and> \<not> success r"
  by (simp_all add: detect_def slice_to_def validate_input_def strip_def isspace_def truthy_def)

lemma detect_int_raises: "detect M self (PyInt i) = Inl TypeError"
  by (simp add: detect_def slice_to_def)

lemma detect_list_rejected:
  "\<exists>r. detect M self (PyList xs) = Inr r \<and> \<not> success r \<and>
       error r = Some ''Text must be a string''"
  by (simp add: detect_def slice_to_def validate_input_def truthy_def)

lemma detect_str_language:
  "\<exists>r. detect M self (PyStr s) = Inr r \<and>
       (if success r then language r = ''en'' \<or> language r = ''ur'' else language r = '''')"
proof (cases "validate_input (PyStr s)")
  case None
  then show ?thesis
    by (simp add: detect_valid_str detect_steps_eq detect_by_unicode_eq detect_by_library_def
        split: langdetect_outcome.splits)
next
  case (Some e)
  then have "truthy (validate_input (PyStr s))"
    unfolding truthy_validate by simp
  with Some show ?thesis
    by (simp add: detect_def slice_to_def)
qed

lemma quick_detect_str:
  "quick_detect M (PyStr s) = Inr ''en'' \<or> quick_detect M (PyStr s) = Inr ''ur''"
  using detect_str_language [of M "init_detector M True" s]
  by (auto simp: quick_detect_def detect_language_def)

lemma quick_detect_default:
  "detect_language M x = Inr r \<Longrightarrow> \<not> success r \<Longrightarrow> quick_detect M x = Inr ''en''"
  by (simp add: quick_detect_def)

section \<open>From the exact ratio to the classifier's floats\<close>

lemma threshold_side: "script_ratio s \<le> 3 / 10 \<Longrightarrow> percentage (script_ratio s) \<le> 30"
  using percentage_mono [of "script_ratio s" "3 / 10"] by (simp add: percentage_values)

lemma half_side_le: "r \<le> 1 / 2 \<Longrightarrow> float_add (percentage r) 20 \<le> 70"
  using float_add_mono [OF percentage_mono [of r "1 / 2"], of 20]
  by (simp add: percentage_values float_add_values)


lemma en_confidence_ge_90:
  "p \<le> 30 \<Longrightarrow> 90 \<le> float_add (float_sub 100 p) 20"
  using en_confidence_antimono [of p 30] by (simp add: float_add_values)


text \<open>
  Two different ratios of counters below \<open>2^52\<close> are further apart than the rounding
  error, so a ratio strictly above 30% (above 50%) stays strictly above after rounding.
\<close>

lemma ratio_gap:
  fixes t u a b :: nat
  assumes "0 < t" and "t \<le> 2 ^ 52" and "0 < b"
    and "of_nat a / of_nat b < (of_nat u / of_nat t :: rat)"
  shows "of_nat a / of_nat b + 1 / (of_nat b * 2 ^ 52) \<le> (of_nat u / of_nat t :: rat)"
proof -
  from assms(1,3,4) have "(of_nat (a * t) :: rat) < of_nat (b * u)"
    by (simp add: field_simps)
  then have "a * t < b * u" by (simp only: of_nat_less_iff)
  then have "a * t + 1 \<le> b * u" by simp
  then have "(of_nat (a * t + 1) :: rat) \<le> of_nat (b * u)" by (simp only: of_nat_le_iff)
  then have h: "of_nat a * of_nat t + 1 \<le> (of_nat b * of_nat u :: rat)" by simp
  have e1: "of_nat a / of_nat b + 1 / (of_nat b * of_nat t) =
      (of_nat a * of_nat t + 1) / (of_nat b * of_nat t :: rat)"
    using assms(1,3) by (simp add: field_simps)
  have e2: "(of_nat u / of_nat t :: rat) = (of_nat b * of_nat u) / (of_nat b * of_nat t)"
    using assms(3) by simp
  from h have "(of_nat a * of_nat t + 1) / (of_nat b * of_nat t :: rat) \<le>
      (of_nat b * of_nat u) / (of_nat b * of_nat t)"
    by (rule divide_right_mono) simp
  then have l: "of_nat a / of_nat b + 1 / (of_nat b * of_nat t) \<le> (of_nat u / of_nat t :: rat)"
    by (simp only: e1 e2 [symmetric])
  from assms(2) have "(of_nat t :: rat) \<le> of_nat (2 ^ 52)" by (simp only: of_nat_le_iff)
  then have "(of_nat t :: rat) \<le> 2 ^ 52" by simp
  with assms(1,3) have "1 / (of_nat b * 2 ^ 52) \<le> 1 / (of_nat b * of_nat t :: rat)"
    by (simp add: frac_le)
  with l show ?thesis by linarith
qed

lemma above_threshold:
  assumes "total_chars_of s \<le> 2 ^ 52" and "3 / 10 < script_ratio s"
  shows "30 < percentage (script_ratio s)"
proof -
  from assms(2) have t: "0 < total_chars_of s"
    using total_pos_of_ratio [of s] by simp
  from assms(2) have "of_nat 3 / of_nat 10 < script_ratio s" by simp
  from ratio_gap [OF t assms(1) _ this [unfolded script_ratio_def]]
  have "3 / 10 + 1 / (10 * 2 ^ 52) \<le> script_ratio s"
    by (simp add: script_ratio_def)
  then have "percentage (3 / 10 + 1 / (10 * 2 ^ 52)) \<le> percentage (script_ratio s)"
    by (rule percentage_mono)
  then have "8444249301319681 / 2 ^ 48 \<le> percentage (script_ratio s)"
    by (simp only: percentage_values)
  then show ?thesis by simp
qed

lemma above_half:
  assumes "total_chars_of s \<le> 2 ^ 52" and "1 / 2 < script_ratio s"
  shows "70 < float_add (percentage (script_ratio s)) 20"
proof -
  from assms(2) have t: "0 < total_chars_of s"
    using total_pos_of_ratio [of s] by simp
  from assms(2) have "of_nat 1 / of_nat 2 < script_ratio s" by simp
  from ratio_gap [OF t assms(1) _ this [unfolded script_ratio_def]]
  have "1 / 2 + 1 / 2 ^ 53 \<le> script_ratio s"
    by (simp add: script_ratio_def)
  then have "percentage (1 / 2 + 1 / 2 ^ 53) \<le> percentage (script_ratio s)"
    by (rule percentage_mono)
  then have "float_add (percentage (1 / 2 + 1 / 2 ^ 53)) 20 \<le>
      float_add (percentage (script_ratio s)) 20"
    by (rule float_add_mono)
  then have "4925812092436481 / 2 ^ 46 \<le> float_add (percentage (script_ratio s)) 20"
    by (simp only: percentage_values float_add_values)
  then show ?thesis by simp
qed


lemma is_mixed_language_eq:
  "is_mixed_language s threshold =
     Inr (0 < total_chars_of s \<and> threshold \<le> round64 (script_ratio s) \<and>
          round64 (script_ratio s) \<le> float_sub 1 threshold)"
proof -
  have f: "(\<lambda>char. \<not> isspace char \<and> char \<notin> set PUNCTUATION) = analyzable"
    by (simp add: fun_eq_iff analyzable_def)
  show ?thesis
    by (simp add: is_mixed_language_def detect_by_unicode_eq sum_ones f truediv_def Let_def
        urdu_loop_filter script_ratio_def total_chars_of_filter urdu_chars_of_filter
        del: filter_filter)
qed

section \<open>Claims about the detection pipeline\<close>

text \<open>
  Claim C1, as stated: every valid input whose target-script ratio exceeds 30% is detected
  as \<open>ur\<close>. It fails on the mixed text of the test-suite (ratio 4/9, script confidence
  below 70) when the statistical fallback is enabled and reports Persian: the fallback's
  answer is coerced to \<open>en\<close> and replaces the script classifier's \<open>ur\<close>.
\<close>

theorem detect_urdu_above_threshold_counterexample:
  "validate_input (PyStr hello_world_salam_dunya) = None \<and>
   30 / 100 < script_ratio hello_world_salam_dunya \<and>
   map_sum id language
     (detect env_fa (init_detector env_fa True) (PyStr hello_world_salam_dunya)) = Inr ''en''"
  by (simp add: valid_mixed detect_valid_str detect_steps_eq detect_by_unicode_eq stat_defs
      count_evals env_fa_def init_detector_def detect_by_library_def mixed_floats)

text \<open>
  Claim C1, amended: for a valid input of at most \<open>2^52\<close> analyzable characters whose
  target-script ratio exceeds 30%, \<open>detect\<close> returns a successful result; its language is
  \<open>ur\<close> when the ratio exceeds 50% (script confidence above 70), or the detector does not
  use the fallback, or langdetect is not available, or langdetect raises, or langdetect
  reports \<open>ur\<close>; in every other case the fallback's answer stands and the language is
  \<open>en\<close>. (The bound on the length keeps the ratio clear of the rounding error of the
  float division.)
\<close>

theorem detect_urdu_above_threshold:
  assumes "validate_input (PyStr s) = None" and "total_chars_of s \<le> 2 ^ 52"
    and "30 / 100 < script_ratio s"
  shows "\<exists>r. detect M self (PyStr s) = Inr r \<and> success r \<and>
           language r =
             (if 1 / 2 < script_ratio s \<or> \<not> use_fallback self \<or> \<not> LANGDETECT_AVAILABLE M \<or>
                 langdetect_detect M s = LangDetectException \<or>
                 langdetect_detect M s = Detected ''ur''
              then ''ur'' else ''en'')"
proof -
  from assms(3) have pos: "total_chars_of s \<noteq> 0"
    using total_pos_of_ratio [of s] by simp
  from assms(3) have "3 / 10 < script_ratio s" by simp
  from above_threshold [OF assms(2) this] pos
  have u: "detect_by_unicode s =
      Inr \<lparr>u_language = ''ur'',
           u_confidence = min (float_add (percentage (script_ratio s)) 20) 99\<rparr>"
    by (simp add: detect_by_unicode_eq)
  have c: "70 < float_add (percentage (script_ratio s)) 20 \<longleftrightarrow> 1 / 2 < script_ratio s"
  proof (cases "1 / 2 < script_ratio s")
    case True
    from above_half [OF assms(2) this] True show ?thesis by simp
  next
    case False
    then have "script_ratio s \<le> 1 / 2" by simp
    from half_side_le [OF this] False show ?thesis by simp
  qed
  show ?thesis
    using c unfolding detect_valid_str [OF assms(1)] detect_steps_eq u
    by (auto simp: detect_by_library_def split: langdetect_outcome.splits)
qed

theorem detect_urdu_above_threshold_witness:
  "validate_input (PyStr hello_world_salam_dunya) = None \<and>
   total_chars_of hello_world_salam_dunya \<le> 2 ^ 52 \<and>
   30 / 100 < script_ratio hello_world_salam_dunya \<and>
   (\<exists>r. detect env_fa \<lparr>use_fallback = False\<rparr> (PyStr hello_world_salam_dunya) = Inr r \<and>
        success r \<and> language r = ''ur'')"
proof -
  have t: "total_chars_of hello_world_salam_dunya \<le> 2 ^ 52"
    by (simp add: stat_defs count_evals)
  have r: "30 / 100 < script_ratio hello_world_salam_dunya"
    by (simp add: stat_defs count_evals)
  show ?thesis
    using detect_urdu_above_threshold
      [OF valid_mixed t r, of env_fa "\<lparr>use_fallback = False\<rparr>"] valid_mixed t r
    by simp
qed

text \<open>
  Claim C2: once validation passes, \<open>detect\<close> returns a result with \<open>success\<close> set (and no
  error message), whatever the script confidence and whatever langdetect does.
\<close>

theorem detect_succeeds_after_validation:
  assumes "validate_input x = None"
  shows "\<exists>r. detect M self x = Inr r \<and> success r \<and> error r = None"
proof -
  from assms obtain s where x: "x = PyStr s"
    using validate_None_str by blast
  show ?thesis
    using assms unfolding x
    by (simp add: detect_valid_str detect_steps_eq detect_by_unicode_eq)
qed

theorem detect_succeeds_after_validation_witness:
  "validate_input (PyStr hello_world_salam_dunya) = None \<and>
   (\<exists>r. detect env_fa \<lparr>use_fallback = True\<rparr> (PyStr hello_world_salam_dunya) = Inr r \<and>
        success r \<and> error r = None)"
  using detect_succeeds_after_validation
    [OF valid_mixed, of env_fa "\<lparr>use_fallback = True\<rparr>"] valid_mixed
  by simp

text \<open>
  Claim C3 says that \<open>detect(None)\<close> returns a failed result in-band. The debug message at
  the top of \<open>detect\<close> slices \<open>text\<close> before \<open>_validate_input\<close> runs, so on \<open>None\<close> the call
  raises \<open>TypeError\<close> and no result is returned. (The other four inputs of the claim behave
  as stated: \<open>detect_rejects_in_band\<close>, \<open>detect_Hi_bang_succeeds\<close>.)
\<close>

theorem detect_None_raises: "detect M self PyNone = Inl TypeError"
  by (simp add: detect_def slice_to_def)

text \<open>
  Claim C4: every result that \<open>detect\<close> returns satisfies: a failed result has the empty
  language and confidence 0, and the error message is present exactly on failed results.
\<close>

theorem detect_result_invariant:
  assumes "detect M self x = Inr r"
  shows "(\<not> success r \<longrightarrow> language r = '''' \<and> confidence r = 0) \<and>
         (error r \<noteq> None \<longleftrightarrow> \<not> success r)"
proof (cases "validate_input x")
  case None
  then obtain s where x: "x = PyStr s"
    using validate_None_str by blast
  from None assms show ?thesis
    unfolding x
    by (auto simp: detect_valid_str detect_steps_eq detect_by_unicode_eq split: if_splits)
next
  case (Some e)
  then have "truthy (validate_input x)"
    unfolding truthy_validate by simp
  with assms Some show ?thesis
    by (auto simp: detect_def Let_def split: sum.splits)
qed

theorem detect_result_invariant_witness:
  "\<exists>r. detect env_fa \<lparr>use_fallback = True\<rparr> (PyStr []) = Inr r \<and> \<not> success r \<and>
      language r = '''' \<and> confidence r = 0 \<and> error r \<noteq> None"
  using detect_result_invariant [OF detect_empty [of env_fa "\<lparr>use_fallback = True\<rparr>"]]
  by (simp add: detect_empty)

text \<open>
  Claim C5: a valid input with at least one analyzable character and a target-script ratio
  of at most 30% is detected as \<open>en\<close>.
\<close>

theorem detect_english_at_or_below_threshold:
  assumes "validate_input (PyStr s) = None" and "0 < total_chars_of s"
    and "script_ratio s \<le> 30 / 100"
  shows "\<exists>r. detect M self (PyStr s) = Inr r \<and> language r = ''en''"
proof -
  from assms(3) have "script_ratio s \<le> 3 / 10" by simp
  then have p: "percentage (script_ratio s) \<le> 30" by (rule threshold_side)
  from en_confidence_ge_90 [OF p]
  have c: "70 < min (float_add (float_sub 100 (percentage (script_ratio s))) 20) 99"
    by simp
  show ?thesis
    using assms(2) p c unfolding detect_valid_str [OF assms(1)] detect_steps_eq
    by (simp add: detect_by_unicode_eq)
qed

theorem detect_english_at_or_below_threshold_witness:
  "validate_input (PyStr hello_world) = None \<and> 0 < total_chars_of hello_world \<and>
   script_ratio hello_world \<le> 30 / 100 \<and>
   (\<exists>r. detect env_fa \<lparr>use_fallback = True\<rparr> (PyStr hello_world) = Inr r \<and> language r = ''en'')"
proof -
  have t: "0 < total_chars_of hello_world" by (simp add: stat_defs count_evals)
  have r: "script_ratio hello_world \<le> 30 / 100" by (simp add: stat_defs count_evals)
  show ?thesis
    using detect_english_at_or_below_threshold
      [OF valid_hello_world t r, of env_fa "\<lparr>use_fallback = True\<rparr>"] valid_hello_world t r
    by simp
qed

section \<open>Claims about the script classifier\<close>




text \<open>
  Why an \<open>en\<close> input is not compared with a \<open>ur\<close> input: at ratios 7/9 and 2/9, equally far
  from the midpoint, the two float expressions give 97.77777777777779 and
  97.77777777777777.
\<close>

lemma mirrored_ratios_round_differently:
  "midpoint_distance s7_a2 = midpoint_distance a7_s2 \<and>
   detect_by_unicode s7_a2 =
     Inr \<lparr>u_language = ''ur'', u_confidence = 6880499430704925 / 2 ^ 46\<rparr> \<and>
   detect_by_unicode a7_s2 =
     Inr \<lparr>u_language = ''en'', u_confidence = 1720124857676231 / 2 ^ 44\<rparr> \<and>
   (1720124857676231 / 2 ^ 44 :: rat) < 6880499430704925 / 2 ^ 46"
  by (simp add: detect_by_unicode_eq stat_defs count_evals mirrored_floats)

text \<open>
  Claim C7: the classifier returns a dictionary for every string, and when no character is
  analyzable the dictionary is exactly language \<open>en\<close> with confidence 50.
\<close>

theorem detect_by_unicode_total:
  "(\<exists>a. detect_by_unicode s = Inr a) \<and>
   (total_chars_of s = 0 \<longrightarrow>
      detect_by_unicode s = Inr \<lparr>u_language = ''en'', u_confidence = 50\<rparr>)"
  by (simp add: detect_by_unicode_eq)

theorem detect_by_unicode_total_witness:
  "total_chars_of only_punctuation = 0 \<and>
   detect_by_unicode only_punctuation = Inr \<lparr>u_language = ''en'', u_confidence = 50\<rparr>"
proof -
  have t: "total_chars_of only_punctuation = 0" by (simp add: stat_defs count_evals)
  show ?thesis using detect_by_unicode_total [of only_punctuation] t by simp
qed

section \<open>Claims about the mixed-language query and the convenience functions\<close>

text \<open>
  Claim C8, as stated: \<open>is_mixed_language\<close> returns true exactly when the target-script
  ratio lies in \<open>[threshold, 1 - threshold]\<close>. The comparison is made on floats, and at the
  endpoints of the interval it differs from the comparison of the exact numbers. With the
  threshold \<open>0.32\<close> and a ratio of 17/25 the answer is false, although
  \<open>0.32 \<le> 17/25 \<le> 1 - 0.32\<close>: the float \<open>1 - 0.32\<close> is \<open>0.6799999999999999\<close>, below the
  float nearest to 17/25. With the default threshold \<open>0.2\<close> and a ratio of 1/5 the answer is
  true, although the exact ratio is below the number that the float \<open>0.2\<close> denotes.
\<close>

theorem is_mixed_language_iff_counterexample:
  "0 < total_chars_of a8_s17 \<and>
   32 / 100 \<le> script_ratio a8_s17 \<and> script_ratio a8_s17 \<le> 1 - 32 / 100 \<and>
   is_mixed_language a8_s17 (round64 (32 / 100)) = Inr False \<and>
   0 < total_chars_of abcd_s \<and>
   script_ratio abcd_s < round64 (1 / 5) \<and>
   is_mixed_language abcd_s (round64 (1 / 5)) = Inr True"
proof -
  have r1: "script_ratio a8_s17 = 17 / 25" by (simp add: stat_defs count_evals)
  have r2: "script_ratio abcd_s = 1 / 5" by (simp add: stat_defs count_evals)
  have t: "0 < total_chars_of a8_s17" "0 < total_chars_of abcd_s"
    by (simp_all add: stat_defs count_evals)
  have m1: "is_mixed_language a8_s17 (round64 (32 / 100)) = Inr False"
    by (simp only: is_mixed_language_eq r1 threshold_floats) (simp add: t)
  have m2: "is_mixed_language abcd_s (round64 (1 / 5)) = Inr True"
    by (simp only: is_mixed_language_eq r2 threshold_floats) (simp add: t)
  have l: "script_ratio abcd_s < round64 (1 / 5)"
    by (simp only: r2 threshold_floats) simp
  have i: "32 / 100 \<le> script_ratio a8_s17" "script_ratio a8_s17 \<le> 1 - 32 / 100"
    by (simp_all add: r1)
  from t i m1 l m2 show ?thesis by blast
qed

text \<open>
  Claim C8, amended: for every text and every finite float threshold,
  \<open>is_mixed_language\<close> returns without raising. With no analyzable character it returns
  false. Otherwise it returns true exactly when \<open>threshold \<le> q\<close> and \<open>q \<le> w\<close>, where \<open>q\<close> is
  the float nearest to the target-script ratio and \<open>w\<close> the float nearest to
  \<open>1 - threshold\<close>; in particular it returns true whenever the exact ratio lies in
  \<open>[threshold, 1 - threshold]\<close>, the threshold taken as the number its float denotes.
\<close>

theorem is_mixed_language_iff:
  "(total_chars_of s = 0 \<longrightarrow> is_mixed_language s threshold = Inr False) \<and>
   (0 < total_chars_of s \<longrightarrow>
      is_mixed_language s threshold =
        Inr (threshold \<le> round64 (script_ratio s) \<and>
             round64 (script_ratio s) \<le> round64 (1 - threshold))) \<and>
   (0 < total_chars_of s \<and> round64 threshold = threshold \<and>
    threshold \<le> script_ratio s \<and> script_ratio s \<le> 1 - threshold \<longrightarrow>
      is_mixed_language s threshold = Inr True)"
proof -
  have "threshold \<le> round64 (script_ratio s) \<and>
      round64 (script_ratio s) \<le> round64 (1 - threshold)"
    if "round64 threshold = threshold" "threshold \<le> script_ratio s"
      "script_ratio s \<le> 1 - threshold"
    using round64_mono [OF that(2)] round64_mono [OF that(3)] that(1) by simp
  then show ?thesis
    by (auto simp: is_mixed_language_eq float_sub_def)
qed

theorem is_mixed_language_iff_witness:
  "total_chars_of only_punctuation = 0 \<and> is_mixed_language only_punctuation (1 / 2) = Inr False \<and>
   0 < total_chars_of ab_sl \<and> round64 (1 / 2) = 1 / 2 \<and> 1 / 2 \<le> script_ratio ab_sl \<and>
   script_ratio ab_sl \<le> 1 - 1 / 2 \<and> is_mixed_language ab_sl (1 / 2) = Inr True"
proof -
  have t: "total_chars_of only_punctuation = 0" by (simp add: stat_defs count_evals)
  have u: "0 < total_chars_of ab_sl" by (simp add: stat_defs count_evals)
  have h: "round64 (1 / 2) = 1 / 2"
    unfolding round64_def Let_def by (simp add: round64_eval)
  have r: "script_ratio ab_sl = 1 / 2" by (simp add: stat_defs count_evals)
  show ?thesis
    using is_mixed_language_iff [of only_punctuation "1 / 2"]
      is_mixed_language_iff [of ab_sl "1 / 2"] t u h r by simp
qed

text \<open>
  Claim C9 says that \<open>quick_detect\<close> never surfaces an error to its caller and answers \<open>en\<close>
  where detection fails. On \<open>None\<close> the \<open>TypeError\<close> raised by \<open>detect\<close> before validation
  passes through \<open>detect_language\<close> and \<open>quick_detect\<close> unchanged. (On every string the
  answer is \<open>en\<close> or \<open>ur\<close>: \<open>quick_detect_str\<close>, \<open>quick_detect_default\<close>.)
\<close>

theorem quick_detect_None_raises: "quick_detect M PyNone = Inl TypeError"
  by (simp add: quick_detect_def detect_language_def detect_def slice_to_def)

text \<open>
  Claim C10: for a valid input with at least one analyzable character and a ratio of at
  most 30%, the classifier's confidence is at least 90, and \<open>detect\<close> returns the
  classifier's answer with method \<open>unicode\<close> for every detector and every behaviour of
  langdetect: the result does not depend on the fallback.
\<close>

theorem english_accepted_by_primary_pass:
  assumes "validate_input (PyStr s) = None" and "0 < total_chars_of s"
    and "script_ratio s \<le> 30 / 100"
  shows "\<exists>a. detect_by_unicode s = Inr a \<and> 90 \<le> u_confidence a \<and>
           detect M self (PyStr s) =
             Inr \<lparr>success = True, language = ''en'', confidence = u_confidence a,
                  detection_method = ''unicode'', text_sample = take 100 s,
                  char_count = length s, error = None\<rparr>"
proof -
  from assms(3) have "script_ratio s \<le> 3 / 10" by simp
  then have p: "percentage (script_ratio s) \<le> 30" by (rule threshold_side)
  from en_confidence_ge_90 [OF p]
  have c: "90 \<le> min (float_add (float_sub 100 (percentage (script_ratio s))) 20) 99"
    by simp
  then have "70 < min (float_add (float_sub 100 (percentage (script_ratio s))) 20) 99"
    by linarith
  then show ?thesis
    using assms(2) p c unfolding detect_valid_str [OF assms(1)] detect_steps_eq
    by (simp add: detect_by_unicode_eq)
qed

theorem english_accepted_by_primary_pass_witness:
  "validate_input (PyStr hi_bang) = None \<and> 0 < total_chars_of hi_bang \<and>
   script_ratio hi_bang \<le> 30 / 100 \<and>
   detect env_fa \<lparr>use_fallback = True\<rparr> (PyStr hi_bang) =
     Inr \<lparr>success = True, language = ''en'', confidence = 99, detection_method = ''unicode'',
          text_sample = hi_bang, char_count = 3, error = None\<rparr>"
proof -
  have t: "0 < total_chars_of hi_bang" by (simp add: stat_defs count_evals)
  have r: "script_ratio hi_bang \<le> 30 / 100" by (simp add: stat_defs count_evals)
  have d: "detect_by_unicode hi_bang = Inr \<lparr>u_language = ''en'', u_confidence = 99\<rparr>"
    by (simp add: detect_by_unicode_eq stat_defs count_evals percentage_values
        float_add_values)
  have l: "take 100 hi_bang = hi_bang" "length hi_bang = 3" by (simp_all add: hi_bang_def)
  show ?thesis
    using english_accepted_by_primary_pass
      [OF valid_hi_bang t r, of env_fa "\<lparr>use_fallback = True\<rparr>"] valid_hi_bang t r d l
    by auto
qed


end
